theory Spec2Isabelle
  imports Complex_Main "HOL-Library.Product_Lexorder" "HOL-Library.List_Lexorder"
    "HOL-Library.Char_ord" "HOL-Library.Multiset" "HOL-Library.Sublist"
    "HOL-Library.Code_Target_Numeral"
begin

section \<open>JavaScript values\<close>

text \<open>
  The numbers of the program are JavaScript numbers: IEEE doubles. The revenues of the
  chart and the page numbers of the pagination bar are integers of the safe range, where
  \<open>+\<close>, \<open>-\<close>, \<open>*\<close> and the comparisons are exact; they are modelled by \<open>int\<close>. The one
  non-finite value the utilities can produce from such inputs is \<open>-Infinity\<close>
  (\<open>Math.max()\<close> of no arguments), which gets a constructor of its own. Where a number that
  the caller chooses goes through a product or a quotient (the page number in the offset
  of a query, the amount in \<open>amount / 100\<close>), the number is a rational and every
  operation rounds its exact result to the nearest double, \<open>round_double\<close> below.
\<close>

datatype number = NegInfinity | Num int


subsection \<open>Rounding to a double\<close>

text \<open>
  A finite double other than 0 is \<open>m * 2^e\<close> with an integer \<open>m\<close>, \<open>2^52 \<le> |m| < 2^53\<close>.
  The result of an arithmetic operation is the double nearest to the exact result, the one
  with even \<open>m\<close> when two are equally near. \<open>bits n\<close> is the number of binary digits of
  \<open>n\<close>; \<open>exponent x\<close> is the \<open>e\<close> with \<open>2^52 \<le> |x| / 2^e < 2^53\<close>; \<open>rne\<close> rounds to the
  nearest integer, ties to even. Overflow past \<open>2^1024\<close> and the subnormal numbers below
  \<open>2^-1022\<close> are not modelled: no amount or page number of a double is that large, and no
  quotient by 100 or 6 of a non-zero integer that small.
\<close>

fun bits :: "nat \<Rightarrow> nat" where
  "bits n = (if n = 0 then 0 else Suc (bits (n div 2)))"

declare bits.simps [simp del]

definition exponent :: "rat \<Rightarrow> int" where
  "exponent x =
     (if 1 \<le> \<bar>x\<bar> then int (bits (nat \<lfloor>\<bar>x\<bar>\<rfloor>)) - 53
      else - int (bits (nat (\<lceil>1 / \<bar>x\<bar>\<rceil> - 1))) - 52)"

definition rne :: "rat \<Rightarrow> int" where
  "rne y =
     (let f = \<lfloor>y\<rfloor>; d = y - rat_of_int f
      in if d < 1 / 2 then f else if 1 / 2 < d then f + 1 else if even f then f else f + 1)"

definition round_double :: "rat \<Rightarrow> rat" where
  "round_double x =
     (if x = 0 then 0
      else rat_of_int (rne (x / 2 powi exponent x)) * 2 powi exponent x)"

subsection \<open>Number to string, for integers\<close>

definition digit_char :: "nat \<Rightarrow> char" where
  "digit_char d = ''0123456789'' ! (d mod 10)"

fun show_nat :: "nat \<Rightarrow> string" where
  "show_nat n = (if n < 10 then [digit_char n] else show_nat (n div 10) @ [digit_char (n mod 10)])"

declare show_nat.simps [simp del]

definition show_int :: "int \<Rightarrow> string" where
  "show_int i = (if i < 0 then CHR ''-'' # show_nat (nat (- i)) else show_nat (nat i))"

section \<open>utils.ts\<close>

subsection \<open>formatCurrency\<close>

text \<open>
  \<open>Number.prototype.toLocaleString('en-US', {style: 'currency', currency: 'USD'})\<close> is the
  platform's formatter, not code of the repository. Its model follows the number format of
  that locale and currency as ECMA-402 gives it: the value of the double is rounded to two
  fraction digits (ties away from zero), the integer digits are grouped in threes by
  commas, the currency symbol is a leading dollar sign, and a negative value is prefixed
  by a minus sign. The quotient \<open>amount / 100\<close> that it formats is the double nearest to
  the exact quotient.
\<close>

fun group3 :: "string \<Rightarrow> string" where
  "group3 ds =
     (if length ds \<le> 3 then ds
      else group3 (take (length ds - 3) ds) @ CHR '','' # drop (length ds - 3) ds)"

declare group3.simps [simp del]

definition pad2 :: "nat \<Rightarrow> string" where
  "pad2 n = [digit_char (n div 10), digit_char n]"

definition usd_of_cents :: "nat \<Rightarrow> string" where
  "usd_of_cents c = CHR ''$'' # group3 (show_nat (c div 100)) @ CHR ''.'' # pad2 (c mod 100)"

definition toLocaleString_en_US_USD :: "rat \<Rightarrow> string" where
  "toLocaleString_en_US_USD x =
     (let c = nat \<lfloor>\<bar>x\<bar> * 100 + 1 / 2\<rfloor>
      in if x < 0 then CHR ''-'' # usd_of_cents c else usd_of_cents c)"

definition formatCurrency :: "rat \<Rightarrow> string" where
  "formatCurrency amount = toLocaleString_en_US_USD (round_double (amount / 100))"

subsection \<open>generateYAxis\<close>

record Revenue =
  month :: string
  revenue :: int

record YAxis =
  yAxisLabels :: "string list"
  topLabel :: number

text \<open>\<open>Math.max(...xs)\<close>: the largest argument, \<open>-Infinity\<close> when there is none.\<close>

fun number_max :: "number \<Rightarrow> number \<Rightarrow> number" where
  "number_max NegInfinity y = y"
| "number_max x NegInfinity = x"
| "number_max (Num a) (Num b) = Num (max a b)"

definition Math_max :: "int list \<Rightarrow> number" where
  "Math_max xs = foldl number_max NegInfinity (map Num xs)"

text \<open>\<open>Math.ceil(highestRecord / 1000) * 1000\<close>; on \<open>-Infinity\<close> every step gives \<open>-Infinity\<close>.\<close>

fun ceil_thousand :: "number \<Rightarrow> number" where
  "ceil_thousand NegInfinity = NegInfinity"
| "ceil_thousand (Num h) = Num (\<lceil>rat_of_int h / 1000\<rceil> * 1000)"

text \<open>
  The \<open>for\<close> loop, with the array it pushes to as accumulator. The loop variable stays a
  multiple of 1000 (lemma \<open>ceil_thousand_dvd\<close> below), so \<open>i / 1000\<close> is the integer
  \<open>i div 1000\<close>, which the template literal prints in decimal.
\<close>

function yAxis_loop :: "number \<Rightarrow> string list \<Rightarrow> string list" where
  "yAxis_loop NegInfinity acc = acc"
| "yAxis_loop (Num i) acc =
     (if i \<ge> 0
      then yAxis_loop (Num (i - 1000)) (acc @ [CHR ''$'' # show_int (i div 1000) @ ''K''])
      else acc)"
  by pat_completeness auto
termination
  by (relation "measure (\<lambda>(i, acc). case i of NegInfinity \<Rightarrow> 0 | Num n \<Rightarrow> nat (n + 1))") auto

declare yAxis_loop.simps(2) [simp del]

definition generateYAxis :: "Revenue list \<Rightarrow> YAxis" where
  "generateYAxis rs =
     (let highestRecord = Math_max (map revenue rs);
          top = ceil_thousand highestRecord
      in \<lparr>yAxisLabels = yAxis_loop top [], topLabel = top\<rparr>)"

subsection \<open>generatePagination\<close>



section \<open>The query functions\<close>

subsection \<open>Tables, result rows, errors\<close>

text \<open>A calendar date as year, month and day; the order on dates is the lexicographic one.\<close>

type_synonym date = "nat \<times> nat \<times> nat"

record Invoice =
  invoices_id :: string
  invoices_customer_id :: string
  invoices_amount :: int
  invoices_date :: date
  invoices_status :: string

record Customer =
  customers_id :: string
  customers_name :: string
  customers_email :: string
  customers_image_url :: string

record database =
  invoices :: "Invoice list"
  customers :: "Customer list"
  revenues :: "Revenue list"

text \<open>
  The row types of \<open>definitions.ts\<close>, read off the column lists of the statements. Where a
  function replaces a column by a value of another type (\<open>{...row, amount: f(row.amount)}\<close>)
  the row type is polymorphic in that column.
\<close>

record 'a LatestInvoice =
  li_amount :: 'a
  li_name :: string
  li_image_url :: string
  li_email :: string
  li_id :: string

record InvoicesTable =
  it_id :: string
  it_amount :: int
  it_date :: date
  it_status :: string
  it_name :: string
  it_email :: string
  it_image_url :: string

record 'a InvoiceForm =
  if_id :: string
  if_customer_id :: string
  if_amount :: 'a
  if_status :: string

record CustomerField =
  cf_id :: string
  cf_name :: string

text \<open>
  \<open>COUNT\<close> and \<open>SUM\<close> over an integer column are 64-bit integers (\<open>bigint\<close>). The
  driver does not turn such a value into a number: JavaScript gets a string, the decimal
  digits of the value. \<open>BigintText n\<close> is that string for the value \<open>n\<close>, and
  \<open>bigint_string\<close> gives its characters. \<open>Number(s)\<close>, and the conversion that
  \<open>s / 100\<close> makes of a string operand, read the digits as the nearest double.
\<close>

datatype bigint_text = BigintText int

fun bigint_string :: "bigint_text \<Rightarrow> string" where
  "bigint_string (BigintText n) = show_int n"

fun Number :: "bigint_text \<Rightarrow> rat" where
  "Number (BigintText n) = round_double (rat_of_int n)"

record 'a CustomersTable =
  ct_id :: string
  ct_name :: string
  ct_email :: string
  ct_image_url :: string
  total_invoices :: bigint_text
  total_pending :: 'a
  total_paid :: 'a

record count_row =
  count :: bigint_text

text \<open>\<open>SUM\<close> over no rows is \<open>NULL\<close>.\<close>

record status_row =
  paid :: "bigint_text option"
  pending :: "bigint_text option"

record CardData =
  numberOfCustomers :: rat
  numberOfInvoices :: rat
  totalPaidInvoices :: string
  totalPendingInvoices :: string

text \<open>What a JavaScript \<open>throw\<close> carries: the constructor of the error and its message.\<close>

datatype js_error = Error string | PostgresError string | TypeError string

text \<open>
  The connection \<open>sql\<close>, as the answer it gives to each of the ten statements of the
  module: the rows, or the error the awaited promise rejects with. The bound parameters
  of a statement are the arguments of its field.
\<close>

record sql_conn =
  select_revenue :: "js_error + Revenue list"
  select_latest_invoices :: "js_error + int LatestInvoice list"
  select_invoice_count :: "js_error + count_row list"
  select_customer_count :: "js_error + count_row list"
  select_invoice_status :: "js_error + status_row list"
  select_filtered_invoices :: "string \<Rightarrow> int \<Rightarrow> rat \<Rightarrow> js_error + InvoicesTable list"
  select_invoices_count :: "string \<Rightarrow> js_error + count_row list"
  select_invoice_by_id :: "string \<Rightarrow> js_error + int InvoiceForm list"
  select_customers :: "js_error + CustomerField list"
  select_filtered_customers :: "string \<Rightarrow> js_error + bigint_text CustomersTable list"

subsection \<open>The functions of the module\<close>

text \<open>
  \<open>try { ... } catch (error) { console.error(...); throw new Error(msg) }\<close>: whatever the
  body throws, the caller gets \<open>Error msg\<close>. The line written to the console is not part
  of the result and is not modelled.
\<close>

definition try_catch :: "string \<Rightarrow> js_error + 'a \<Rightarrow> js_error + 'a" where
  "try_catch msg body = (case body of Inl e \<Rightarrow> Inl (Error msg) | Inr v \<Rightarrow> Inr v)"

text \<open>The template \<open>`%${query}%`\<close>.\<close>

definition like_pattern :: "string \<Rightarrow> string" where
  "like_pattern query = CHR ''%'' # query @ ''%''"

definition fetchRevenue :: "sql_conn \<Rightarrow> js_error + Revenue list" where
  "fetchRevenue sql = try_catch ''Failed to fetch revenue data.'' (select_revenue sql)"

definition fetchLatestInvoices :: "sql_conn \<Rightarrow> js_error + string LatestInvoice list" where
  "fetchLatestInvoices sql =
     try_catch ''Failed to fetch the latest invoices.''
       (case select_latest_invoices sql of
          Inl e \<Rightarrow> Inl e
        | Inr data \<Rightarrow>
            Inr (map (\<lambda>invoice.
                   \<lparr>li_amount = formatCurrency (rat_of_int (li_amount invoice)),
                    li_name = li_name invoice, li_image_url = li_image_url invoice,
                    li_email = li_email invoice, li_id = li_id invoice\<rparr>) data))"

text \<open>
  \<open>Promise.all\<close> rejects as soon as one of the three promises rejects. Reading
  \<open>data[k][0].count\<close> of an answer without rows throws a \<open>TypeError\<close>, inside the same
  \<open>try\<close>. \<open>x ?? '0'\<close> replaces \<open>null\<close> by the string \<open>'0'\<close>. \<open>formatCurrency\<close> gets the
  string of a sum here, and its division converts the string as \<open>Number\<close> does.
\<close>

definition fetchCardData :: "sql_conn \<Rightarrow> js_error + CardData" where
  "fetchCardData sql =
     try_catch ''Failed to fetch card data.''
       (case select_invoice_count sql of
          Inl e \<Rightarrow> Inl e
        | Inr d0 \<Rightarrow>
       (case select_customer_count sql of
          Inl e \<Rightarrow> Inl e
        | Inr d1 \<Rightarrow>
       (case select_invoice_status sql of
          Inl e \<Rightarrow> Inl e
        | Inr d2 \<Rightarrow>
       (case (d0, d1, d2) of
          (r0 # _, r1 # _, r2 # _) \<Rightarrow>
            Inr \<lparr>numberOfCustomers = Number (count r1),
                 numberOfInvoices = Number (count r0),
                 totalPaidInvoices =
                   formatCurrency
                     (Number (case paid r2 of None \<Rightarrow> BigintText 0 | Some v \<Rightarrow> v)),
                 totalPendingInvoices =
                   formatCurrency
                     (Number (case pending r2 of None \<Rightarrow> BigintText 0 | Some v \<Rightarrow> v))\<rparr>
        | _ \<Rightarrow> Inl (TypeError ''Cannot read properties of undefined'')))))"

definition ITEMS_PER_PAGE :: int where
  "ITEMS_PER_PAGE = 6"

text \<open>The local constant \<open>offset\<close> of \<open>fetchFilteredInvoices\<close>: a difference and a product
  of doubles. The page number is an integer that is a double.\<close>

definition offset :: "int \<Rightarrow> rat" where
  "offset currentPage =
     round_double (round_double (rat_of_int currentPage - 1) * rat_of_int ITEMS_PER_PAGE)"

definition fetchFilteredInvoices :: "sql_conn \<Rightarrow> string \<Rightarrow> int \<Rightarrow> js_error + InvoicesTable list" where
  "fetchFilteredInvoices sql query currentPage =
     try_catch ''Failed to fetch invoices.''
       (select_filtered_invoices sql (like_pattern query) ITEMS_PER_PAGE (offset currentPage))"

definition fetchInvoicesPages :: "sql_conn \<Rightarrow> string \<Rightarrow> js_error + int" where
  "fetchInvoicesPages sql query =
     try_catch ''Failed to fetch total number of invoices.''
       (case select_invoices_count sql (like_pattern query) of
          Inl e \<Rightarrow> Inl e
        | Inr [] \<Rightarrow> Inl (TypeError ''Cannot read properties of undefined'')
        | Inr (r # _) \<Rightarrow>
            Inr \<lceil>round_double (Number (count r) / rat_of_int ITEMS_PER_PAGE)\<rceil>)"

text \<open>\<open>invoice[0]\<close> of an empty array is \<open>undefined\<close>: the result \<open>None\<close>.\<close>

definition fetchInvoiceById :: "sql_conn \<Rightarrow> string \<Rightarrow> js_error + rat InvoiceForm option" where
  "fetchInvoiceById sql ident =
     try_catch ''Failed to fetch invoice.''
       (case select_invoice_by_id sql ident of
          Inl e \<Rightarrow> Inl e
        | Inr data \<Rightarrow>
            (let invoice = map (\<lambda>invoice.
                   \<lparr>if_id = if_id invoice, if_customer_id = if_customer_id invoice,
                    if_amount = round_double (rat_of_int (if_amount invoice) / 100),
                    if_status = if_status invoice\<rparr>) data
             in Inr (case invoice of [] \<Rightarrow> None | r # _ \<Rightarrow> Some r)))"

definition fetchCustomers :: "sql_conn \<Rightarrow> js_error + CustomerField list" where
  "fetchCustomers sql = try_catch ''Failed to fetch all customers.'' (select_customers sql)"

text \<open>\<open>total_invoices\<close> is handed on as the driver gave it; the two sums go through
  \<open>formatCurrency\<close>, whose division converts their strings.\<close>

definition fetchFilteredCustomers :: "sql_conn \<Rightarrow> string \<Rightarrow> js_error + string CustomersTable list" where
  "fetchFilteredCustomers sql query =
     try_catch ''Failed to fetch customer table.''
       (case select_filtered_customers sql (like_pattern query) of
          Inl e \<Rightarrow> Inl e
        | Inr data \<Rightarrow>
            Inr (map (\<lambda>customer.
                   \<lparr>ct_id = ct_id customer, ct_name = ct_name customer,
                    ct_email = ct_email customer, ct_image_url = ct_image_url customer,
                    total_invoices = total_invoices customer,
                    total_pending = formatCurrency (Number (total_pending customer)),
                    total_paid = formatCurrency (Number (total_paid customer))\<rparr>) data))"

subsection \<open>The database engine\<close>

text \<open>
  The statements run on PostgreSQL, which is not code of the repository. The model gives
  each statement its meaning on tables held as lists of rows: joins as nested loops,
  \<open>WHERE\<close> as a filter, \<open>ORDER BY\<close> as a sort, \<open>LIMIT\<close> and \<open>OFFSET\<close> as \<open>take\<close> and
  \<open>drop\<close>.

  SQL leaves the order of rows with equal sort keys to the engine, and the engine may
  choose differently from one execution to the next. The choice is a parameter of the
  model: a rank for every row, by which rows with equal keys are ordered. Every order that
  respects the sort key is the order of some rank.
\<close>

record engine =
  tie_invoices :: "Invoice \<times> Customer \<Rightarrow> nat"
  tie_customers :: "Customer \<Rightarrow> nat"

text \<open>\<open>ILIKE\<close>: \<open>LIKE\<close> on the lower-cased text and pattern. In a pattern \<open>%\<close> stands for
  any run of characters, \<open>_\<close> for one character, and a backslash makes the next character
  literal.\<close>

definition to_lower :: "char \<Rightarrow> char" where
  "to_lower c =
     (case map_of (zip ''ABCDEFGHIJKLMNOPQRSTUVWXYZ'' ''abcdefghijklmnopqrstuvwxyz'') c of
        None \<Rightarrow> c
      | Some l \<Rightarrow> l)"

fun like_match :: "string \<Rightarrow> string \<Rightarrow> bool" where
  "like_match [] s = (s = [])"
| "like_match (p # ps) s =
     (if p = CHR ''%'' then
        like_match ps s \<or> (case s of [] \<Rightarrow> False | _ # t \<Rightarrow> like_match (p # ps) t)
      else if p = CHR ''_'' then
        (case s of [] \<Rightarrow> False | _ # t \<Rightarrow> like_match ps t)
      else if p = CHR 0x5C then
        (case ps of
           [] \<Rightarrow> False
         | q # qs \<Rightarrow> (case s of [] \<Rightarrow> False | c # t \<Rightarrow> c = q \<and> like_match qs t))
      else (case s of [] \<Rightarrow> False | c # t \<Rightarrow> c = p \<and> like_match ps t))"

definition ilike :: "string \<Rightarrow> string \<Rightarrow> bool" where
  "ilike s pat = like_match (map to_lower pat) (map to_lower s)"

text \<open>The casts \<open>amount::text\<close> and \<open>date::text\<close> (ISO format).\<close>

definition pad_left :: "nat \<Rightarrow> string \<Rightarrow> string" where
  "pad_left n ds = replicate (n - length ds) CHR ''0'' @ ds"

definition date_text :: "date \<Rightarrow> string" where
  "date_text d =
     (case d of (y, m, dd) \<Rightarrow>
        pad_left 4 (show_nat y) @ ''-'' @ pad_left 2 (show_nat m) @ ''-'' @ pad_left 2 (show_nat dd))"

text \<open>\<open>FROM invoices JOIN customers ON invoices.customer_id = customers.id\<close>\<close>

definition invoices_join_customers :: "database \<Rightarrow> (Invoice \<times> Customer) list" where
  "invoices_join_customers db =
     concat (map (\<lambda>i. map (\<lambda>c. (i, c))
                         (filter (\<lambda>c. invoices_customer_id i = customers_id c) (customers db)))
                 (invoices db))"

text \<open>The \<open>WHERE\<close> clause shared by \<open>fetchFilteredInvoices\<close> and \<open>fetchInvoicesPages\<close>.\<close>

definition invoice_matches :: "string \<Rightarrow> Invoice \<times> Customer \<Rightarrow> bool" where
  "invoice_matches pat r =
     (case r of (i, c) \<Rightarrow>
        ilike (customers_name c) pat \<or>
        ilike (customers_email c) pat \<or>
        ilike (show_int (invoices_amount i)) pat \<or>
        ilike (date_text (invoices_date i)) pat \<or>
        ilike (invoices_status i) pat)"

definition matching_invoices :: "database \<Rightarrow> string \<Rightarrow> (Invoice \<times> Customer) list" where
  "matching_invoices db pat = filter (invoice_matches pat) (invoices_join_customers db)"

text \<open>\<open>ORDER BY invoices.date DESC\<close>\<close>

definition order_by_date_desc ::
  "engine \<Rightarrow> (Invoice \<times> Customer) list \<Rightarrow> (Invoice \<times> Customer) list" where
  "order_by_date_desc eng rows =
     rev (sort_key (\<lambda>r. (invoices_date (fst r), tie_invoices eng r)) rows)"

text \<open>\<open>ORDER BY name ASC\<close>\<close>

definition order_by_name :: "engine \<Rightarrow> Customer list \<Rightarrow> Customer list" where
  "order_by_name eng cs = sort_key (\<lambda>c. (customers_name c, tie_customers eng c)) cs"

text \<open>\<open>LIMIT l OFFSET k\<close>. Both are \<open>bigint\<close> parameters: the engine refuses a value that
  is not an integer or not below \<open>2^63\<close>, and a negative one.\<close>

definition limit_offset :: "int \<Rightarrow> rat \<Rightarrow> 'a list \<Rightarrow> js_error + 'a list" where
  "limit_offset l k rows =
     (if rat_of_int \<lfloor>k\<rfloor> \<noteq> k then Inl (PostgresError ''invalid input syntax for type bigint'')
      else if 2 ^ 63 \<le> l \<or> 2 ^ 63 \<le> k then
        Inl (PostgresError ''value out of range for type bigint'')
      else if l < 0 then Inl (PostgresError ''LIMIT must not be negative'')
      else if k < 0 then Inl (PostgresError ''OFFSET must not be negative'')
      else Inr (take (nat l) (drop (nat \<lfloor>k\<rfloor>) rows)))"

definition invoices_table_row :: "Invoice \<times> Customer \<Rightarrow> InvoicesTable" where
  "invoices_table_row r =
     (case r of (i, c) \<Rightarrow>
        \<lparr>it_id = invoices_id i, it_amount = invoices_amount i, it_date = invoices_date i,
         it_status = invoices_status i, it_name = customers_name c,
         it_email = customers_email c, it_image_url = customers_image_url c\<rparr>)"

definition latest_invoice_row :: "Invoice \<times> Customer \<Rightarrow> int LatestInvoice" where
  "latest_invoice_row r =
     (case r of (i, c) \<Rightarrow>
        \<lparr>li_amount = invoices_amount i, li_name = customers_name c,
         li_image_url = customers_image_url c, li_email = customers_email c,
         li_id = invoices_id i\<rparr>)"

text \<open>\<open>SUM(CASE WHEN status = s THEN amount ELSE 0 END)\<close> over the rows of a group; an
  invoice column of a row that the left join filled with \<open>NULL\<close>s is \<open>None\<close>, the comparison
  is then not true and the row counts 0.\<close>

definition amount_if_status :: "string \<Rightarrow> Invoice option \<Rightarrow> int" where
  "amount_if_status s io =
     (case io of
        None \<Rightarrow> 0
      | Some i \<Rightarrow> if invoices_status i = s then invoices_amount i else 0)"

definition sum_status :: "string \<Rightarrow> Invoice list \<Rightarrow> bigint_text option" where
  "sum_status s is =
     (if is = [] then None
      else Some (BigintText (sum_list (map (\<lambda>i. amount_if_status s (Some i)) is))))"

text \<open>\<open>FROM customers LEFT JOIN invoices ON customers.id = invoices.customer_id\<close>: a
  customer without invoices keeps one row, with the invoice columns \<open>NULL\<close>.\<close>

definition customers_left_join_invoices :: "database \<Rightarrow> (Customer \<times> Invoice option) list" where
  "customers_left_join_invoices db =
     concat (map (\<lambda>c.
        (let is = filter (\<lambda>i. customers_id c = invoices_customer_id i) (invoices db)
         in if is = [] then [(c, None)] else map (\<lambda>i. (c, Some i)) is))
       (customers db))"

definition customer_matches :: "string \<Rightarrow> Customer \<Rightarrow> bool" where
  "customer_matches pat c = (ilike (customers_name c) pat \<or> ilike (customers_email c) pat)"

text \<open>\<open>GROUP BY customers.id, customers.name, customers.email, customers.image_url\<close>: the
  four columns are the whole customer row, so a group is the rows of one customer value.
  \<open>COUNT(invoices.id)\<close> counts the rows whose invoice is not \<open>NULL\<close>.\<close>

definition customers_table_row ::
  "(Customer \<times> Invoice option) list \<Rightarrow> Customer \<Rightarrow> bigint_text CustomersTable" where
  "customers_table_row rows c =
     (let grp = filter (\<lambda>r. fst r = c) rows
      in \<lparr>ct_id = customers_id c, ct_name = customers_name c, ct_email = customers_email c,
          ct_image_url = customers_image_url c,
          total_invoices = BigintText (int (length (filter (\<lambda>r. snd r \<noteq> None) grp))),
          total_pending =
            BigintText (sum_list (map (\<lambda>r. amount_if_status ''pending'' (snd r)) grp)),
          total_paid =
            BigintText (sum_list (map (\<lambda>r. amount_if_status ''paid'' (snd r)) grp))\<rparr>)"

definition filtered_customers ::
  "engine \<Rightarrow> database \<Rightarrow> string \<Rightarrow> bigint_text CustomersTable list" where
  "filtered_customers eng db pat =
     (let rows = filter (\<lambda>r. customer_matches pat (fst r)) (customers_left_join_invoices db)
      in map (customers_table_row rows) (order_by_name eng (remdups (map fst rows))))"

definition pg :: "engine \<Rightarrow> database \<Rightarrow> sql_conn" where
  "pg eng db =
     \<lparr>select_revenue = Inr (revenues db),
      select_latest_invoices =
        Inr (take 5 (map latest_invoice_row
                       (order_by_date_desc eng (invoices_join_customers db)))),
      select_invoice_count = Inr [\<lparr>count = BigintText (int (length (invoices db)))\<rparr>],
      select_customer_count = Inr [\<lparr>count = BigintText (int (length (customers db)))\<rparr>],
      select_invoice_status =
        Inr [\<lparr>paid = sum_status ''paid'' (invoices db),
              pending = sum_status ''pending'' (invoices db)\<rparr>],
      select_filtered_invoices = (\<lambda>pat l k.
        limit_offset l k
          (map invoices_table_row (order_by_date_desc eng (matching_invoices db pat)))),
      select_invoices_count = (\<lambda>pat.
        Inr [\<lparr>count = BigintText (int (length (matching_invoices db pat)))\<rparr>]),
      select_invoice_by_id = (\<lambda>ident.
        Inr (map (\<lambda>i. \<lparr>if_id = invoices_id i, if_customer_id = invoices_customer_id i,
                       if_amount = invoices_amount i, if_status = invoices_status i\<rparr>)
               (filter (\<lambda>i. invoices_id i = ident) (invoices db)))),
      select_customers =
        Inr (map (\<lambda>c. \<lparr>cf_id = customers_id c, cf_name = customers_name c\<rparr>)
               (order_by_name eng (customers db))),
      select_filtered_customers = (\<lambda>pat. Inr (filtered_customers eng db pat))\<rparr>"

section \<open>Notions used to state the properties\<close>







text \<open>The characters with a special meaning in a \<open>LIKE\<close> pattern.\<close>

definition like_meta :: "char \<Rightarrow> bool" where
  "like_meta c = (c = CHR ''%'' \<or> c = CHR ''_'' \<or> c = CHR 0x5C)"

text \<open>
  The filter as the specification words it: the query is a substring, letter case aside,
  of one of the five searchable columns (name, email, amount as text, date as text,
  status).
\<close>

definition contains_ci :: "string \<Rightarrow> string \<Rightarrow> bool" where
  "contains_ci q s = sublist (map to_lower q) (map to_lower s)"

definition row_contains :: "string \<Rightarrow> Invoice \<times> Customer \<Rightarrow> bool" where
  "row_contains q r =
     (case r of (i, c) \<Rightarrow>
        contains_ci q (customers_name c) \<or>
        contains_ci q (customers_email c) \<or>
        contains_ci q (show_int (invoices_amount i)) \<or>
        contains_ci q (date_text (invoices_date i)) \<or>
        contains_ci q (invoices_status i))"

subsection \<open>Example data\<close>

text \<open>A database with three invoices of two customers and a third customer without
  invoices, an engine that ranks all rows alike, and a connection on which every statement
  fails.\<close>

definition example_db :: database where
  "example_db =
     \<lparr>invoices =
        [\<lparr>invoices_id = ''i1'', invoices_customer_id = ''c1'', invoices_amount = 15795,
          invoices_date = (2022, 12, 6), invoices_status = ''pending''\<rparr>,
         \<lparr>invoices_id = ''i2'', invoices_customer_id = ''c1'', invoices_amount = 20348,
          invoices_date = (2023, 1, 14), invoices_status = ''paid''\<rparr>,
         \<lparr>invoices_id = ''i3'', invoices_customer_id = ''c3'', invoices_amount = 3040,
          invoices_date = (2022, 10, 29), invoices_status = ''paid''\<rparr>],
      customers =
        [\<lparr>customers_id = ''c1'', customers_name = ''Evil Rabbit'',
          customers_email = ''evil@rabbit.com'', customers_image_url = ''/evil.png''\<rparr>,
         \<lparr>customers_id = ''c2'', customers_name = ''Delba'',
          customers_email = ''delba@oliveira.com'', customers_image_url = ''/delba.png''\<rparr>,
         \<lparr>customers_id = ''c3'', customers_name = ''Lee'',
          customers_email = ''lee@robinson.com'', customers_image_url = ''/lee.png''\<rparr>],
      revenues = [\<lparr>month = ''Jan'', revenue = 2000\<rparr>]\<rparr>"

definition example_engine :: engine where
  "example_engine = \<lparr>tie_invoices = (\<lambda>r. 0), tie_customers = (\<lambda>c. 0)\<rparr>"

definition refused :: sql_conn where
  "refused =
     \<lparr>select_revenue = Inl (PostgresError ''connection refused''),
      select_latest_invoices = Inl (PostgresError ''connection refused''),
      select_invoice_count = Inl (PostgresError ''connection refused''),
      select_customer_count = Inl (PostgresError ''connection refused''),
      select_invoice_status = Inl (PostgresError ''connection refused''),
      select_filtered_invoices = (\<lambda>pat l k. Inl (PostgresError ''connection refused'')),
      select_invoices_count = (\<lambda>pat. Inl (PostgresError ''connection refused'')),
      select_invoice_by_id = (\<lambda>ident. Inl (PostgresError ''connection refused'')),
      select_customers = Inl (PostgresError ''connection refused''),
      select_filtered_customers = (\<lambda>pat. Inl (PostgresError ''connection refused''))\<rparr>"

section \<open>Properties of rounding to a double\<close>

text \<open>
  \<open>bits\<close> and \<open>exponent\<close> find the binade of a number; \<open>round_double\<close> leaves an integer
  below \<open>2^53\<close> as it is and moves any other number by at most half a unit of its last
  binary place. The closing lemmas evaluate it at the numbers the examples below need.
\<close>

lemma bits_0: "bits 0 = 0"
  by (subst bits.simps) simp

lemma bits_pos: "0 < n \<Longrightarrow> bits n = Suc (bits (n div 2))"
  by (subst bits.simps) simp

lemma bits_bounds: "0 < n \<Longrightarrow> 2 ^ (bits n - 1) \<le> n \<and> n < 2 ^ bits n"
proof (induction n rule: less_induct)
  case (less n)
  show ?case
  proof (cases "n div 2 = 0")
    case True
    with less(2) have n: "n = 1" by linarith
    have "bits 1 = 1"
      by (simp add: bits_pos bits_0)
    then show ?thesis
      by (simp add: n)
  next
    case False
    then have h: "0 < n div 2" by simp
    have lt: "n div 2 < n" using less(2) by simp
    from less(1) [OF lt h]
    have IH: "2 ^ (bits (n div 2) - 1) \<le> n div 2" "n div 2 < 2 ^ bits (n div 2)"
      by simp_all
    have b: "bits n = Suc (bits (n div 2))"
      using less(2) by (rule bits_pos)
    have "0 < bits (n div 2)"
      using h by (simp add: bits_pos)
    then obtain k where k: "bits (n div 2) = Suc k"
      by (cases "bits (n div 2)") simp_all
    from IH k have lo: "2 ^ k \<le> n div 2" and hi: "n div 2 < 2 ^ Suc k"
      by simp_all
    from lo have "2 * 2 ^ k \<le> n" by linarith
    moreover from hi have "n < 2 * 2 ^ Suc k" by linarith
    ultimately show ?thesis
      by (simp add: b k)
  qed
qed

lemma exponent_large:
  assumes "1 \<le> \<bar>x\<bar>"
  shows "2 powi (exponent x + 52) \<le> \<bar>x\<bar> \<and> \<bar>x\<bar> < 2 powi (exponent x + 53)"
proof -
  define n where "n = nat \<lfloor>\<bar>x\<bar>\<rfloor>"
  have fl: "1 \<le> \<lfloor>\<bar>x\<bar>\<rfloor>"
    using assms by simp
  then have n: "0 < n" and nf: "int n = \<lfloor>\<bar>x\<bar>\<rfloor>"
    by (simp_all add: n_def)
  from bits_bounds [OF n] have lo: "2 ^ (bits n - 1) \<le> n" and hi: "n < 2 ^ bits n"
    by simp_all
  have bpos: "0 < bits n"
    using n by (simp add: bits_pos)
  have e: "exponent x = int (bits n) - 53"
    using assms by (simp add: exponent_def n_def)
  have "rat_of_nat n \<le> \<bar>x\<bar>"
    using nf by (metis of_int_floor_le of_int_of_nat_eq)
  moreover have "(2::rat) ^ (bits n - 1) \<le> rat_of_nat n"
  proof -
    have "rat_of_nat (2 ^ (bits n - 1)) \<le> rat_of_nat n"
      using lo by (simp only: of_nat_le_iff)
    then show ?thesis by simp
  qed
  ultimately have a: "(2::rat) ^ (bits n - 1) \<le> \<bar>x\<bar>"
    by (rule order_trans [rotated])
  have "\<bar>x\<bar> < rat_of_int (\<lfloor>\<bar>x\<bar>\<rfloor> + 1)"
    by linarith
  also have "\<dots> = rat_of_nat (n + 1)"
    using nf by simp
  also have "\<dots> \<le> rat_of_nat (2 ^ bits n)"
    using hi by (simp only: of_nat_le_iff)
  finally have b: "\<bar>x\<bar> < (2::rat) ^ bits n"
    by simp
  have e1: "exponent x + 52 = int (bits n - 1)"
    using bpos by (simp add: e)
  have e2: "exponent x + 53 = int (bits n)"
    by (simp add: e)
  show ?thesis
    unfolding e1 e2 power_int_of_nat using a b by simp
qed

lemma exponent_small:
  assumes "x \<noteq> 0" "\<bar>x\<bar> < 1"
  shows "2 powi (exponent x + 52) \<le> \<bar>x\<bar> \<and> \<bar>x\<bar> < 2 powi (exponent x + 53)"
proof -
  define y where "y = 1 / \<bar>x\<bar>"
  define n where "n = nat (\<lceil>y\<rceil> - 1)"
  have xpos: "0 < \<bar>x\<bar>" using assms(1) by simp
  have y1: "1 < y"
    using assms xpos by (simp add: y_def)
  then have c2: "2 \<le> \<lceil>y\<rceil>"
    by (simp add: le_ceiling_iff)
  then have n: "0 < n" and nf: "int n = \<lceil>y\<rceil> - 1"
    by (simp_all add: n_def)
  from bits_bounds [OF n] have lo: "2 ^ (bits n - 1) \<le> n" and hi: "n < 2 ^ bits n"
    by simp_all
  have bpos: "0 < bits n"
    using n by (simp add: bits_pos)
  have e: "exponent x = - int (bits n) - 52"
    using assms by (simp add: exponent_def n_def y_def)
  have "rat_of_nat n < y"
  proof -
    have "rat_of_int (\<lceil>y\<rceil> - 1) < y" by linarith
    then show ?thesis using nf by (metis of_int_of_nat_eq)
  qed
  moreover have "(2::rat) ^ (bits n - 1) \<le> rat_of_nat n"
  proof -
    have "rat_of_nat (2 ^ (bits n - 1)) \<le> rat_of_nat n"
      using lo by (simp only: of_nat_le_iff)
    then show ?thesis by simp
  qed
  ultimately have a: "(2::rat) ^ (bits n - 1) < y"
    by (rule le_less_trans [rotated])
  have "y \<le> rat_of_int \<lceil>y\<rceil>"
    by linarith
  also have "\<dots> = rat_of_nat (n + 1)"
    using nf by simp
  also have "\<dots> \<le> rat_of_nat (2 ^ bits n)"
    using hi by (simp only: of_nat_le_iff)
  finally have b: "y \<le> (2::rat) ^ bits n"
    by simp
  have x: "\<bar>x\<bar> = 1 / y"
    using xpos by (simp add: y_def)
  have ypos: "0 < y" using y1 by simp
  have lo': "1 / (2::rat) ^ bits n \<le> \<bar>x\<bar>"
    unfolding x using b ypos by (simp add: frac_le)
  have hi': "\<bar>x\<bar> < 1 / (2::rat) ^ (bits n - 1)"
    unfolding x using a ypos by (simp add: frac_less2)
  have e1: "exponent x + 52 = - int (bits n)"
    by (simp add: e)
  have e2: "exponent x + 53 = - int (bits n - 1)"
    using bpos by (simp add: e)
  show ?thesis
    unfolding e1 e2 power_int_minus_divide power_int_of_nat using lo' hi' by simp
qed

lemma exponent_bounds:
  "x \<noteq> 0 \<Longrightarrow> 2 powi (exponent x + 52) \<le> \<bar>x\<bar> \<and> \<bar>x\<bar> < 2 powi (exponent x + 53)"
  using exponent_large [of x] exponent_small [of x] by (cases "1 \<le> \<bar>x\<bar>") simp_all

lemma two_powi_less_imp:
  assumes "(2::rat) powi a < 2 powi b"
  shows "a < b"
proof (rule ccontr)
  assume "\<not> a < b"
  then have "b \<le> a" by simp
  then have "(2::rat) powi b \<le> 2 powi a"
    by (rule power_int_increasing) simp
  with assms show False by simp
qed

lemma exponent_unique:
  assumes "x \<noteq> 0" "2 powi (e + 52) \<le> \<bar>x\<bar>" "\<bar>x\<bar> < 2 powi (e + 53)"
  shows "exponent x = e"
proof (rule antisym)
  from exponent_bounds [OF assms(1)]
  have lo: "2 powi (exponent x + 52) \<le> \<bar>x\<bar>" and hi: "\<bar>x\<bar> < 2 powi (exponent x + 53)"
    by simp_all
  show "exponent x \<le> e"
  proof (rule ccontr)
    assume "\<not> exponent x \<le> e"
    then have "e + 53 \<le> exponent x + 52" by simp
    then have "(2::rat) powi (e + 53) \<le> 2 powi (exponent x + 52)"
      by (rule power_int_increasing) simp
    with lo assms(3) show False by linarith
  qed
  show "e \<le> exponent x"
  proof (rule ccontr)
    assume "\<not> e \<le> exponent x"
    then have "exponent x + 53 \<le> e + 52" by simp
    then have "(2::rat) powi (exponent x + 53) \<le> 2 powi (e + 52)"
      by (rule power_int_increasing) simp
    with hi assms(2) show False by linarith
  qed
qed

lemma rne_error: "\<bar>rat_of_int (rne y) - y\<bar> \<le> 1 / 2"
proof -
  have "rat_of_int \<lfloor>y\<rfloor> \<le> y" "y < rat_of_int \<lfloor>y\<rfloor> + 1"
    by linarith+
  then show ?thesis
    by (auto simp: rne_def Let_def)
qed

lemma rne_of_int: "rne (rat_of_int k) = k"
  by (simp add: rne_def)

lemma round_double_at:
  assumes "x \<noteq> 0" "2 powi (e + 52) \<le> \<bar>x\<bar>" "\<bar>x\<bar> < 2 powi (e + 53)"
  shows "round_double x = rat_of_int (rne (x / 2 powi e)) * 2 powi e"
  using assms(1) by (simp add: round_double_def exponent_unique [OF assms])

lemma round_double_error:
  assumes "x \<noteq> 0"
  shows "\<bar>round_double x - x\<bar> \<le> 2 powi exponent x / 2"
proof -
  define s :: rat where "s = 2 powi exponent x"
  have spos: "0 < s" by (simp add: s_def)
  have "round_double x - x = (rat_of_int (rne (x / s)) - x / s) * s"
    using assms spos by (simp add: round_double_def s_def algebra_simps)
  then have "\<bar>round_double x - x\<bar> = \<bar>rat_of_int (rne (x / s)) - x / s\<bar> * s"
    using spos by (simp add: abs_mult)
  also have "\<dots> \<le> 1 / 2 * s"
    using spos rne_error [of "x / s"] by (intro mult_right_mono) simp_all
  finally show ?thesis by (simp add: s_def)
qed

lemma round_double_0: "round_double 0 = 0"
  by (simp add: round_double_def)

lemma round_double_int:
  assumes "\<bar>n\<bar> < 2 ^ 53"
  shows "round_double (rat_of_int n) = rat_of_int n"
proof (cases "n = 0")
  case True
  then show ?thesis by (simp add: round_double_0)
next
  case False
  define e where "e = exponent (rat_of_int n)"
  have nz: "rat_of_int n \<noteq> 0" using False by simp
  from exponent_bounds [OF nz] have lo: "2 powi (e + 52) \<le> \<bar>rat_of_int n\<bar>"
    by (simp add: e_def)
  have "\<bar>rat_of_int n\<bar> < 2 powi 53"
  proof -
    have "rat_of_int \<bar>n\<bar> < rat_of_int (2 ^ 53)"
      using assms by (simp only: of_int_less_iff)
    then show ?thesis by simp
  qed
  with lo have "(2::rat) powi (e + 52) < 2 powi 53" by linarith
  then have "e + 52 < 53"
    by (rule two_powi_less_imp)
  then have e0: "e \<le> 0" by simp
  define k where "k = nat (- e)"
  have ek: "e = - int k" using e0 by (simp add: k_def)
  have s: "(2::rat) powi e = 1 / 2 ^ k"
    by (simp add: ek power_int_minus_divide)
  have "rat_of_int n / 2 powi e = rat_of_int (n * 2 ^ k)"
    by (simp add: s)
  then have "rne (rat_of_int n / 2 powi e) = n * 2 ^ k"
    by (simp only: rne_of_int)
  then show ?thesis
    using nz by (simp add: round_double_def e_def [symmetric] s)
qed

lemma round_double_close:
  assumes "\<bar>x\<bar> < 2 powi k"
  shows "\<bar>round_double x - x\<bar> \<le> 2 powi (k - 54)"
proof (cases "x = 0")
  case True
  then show ?thesis by (simp add: round_double_0)
next
  case False
  from exponent_bounds [OF False] assms
  have "(2::rat) powi (exponent x + 52) < 2 powi k" by linarith
  then have "exponent x + 52 < k" by (rule two_powi_less_imp)
  then have "exponent x \<le> k - 53" by simp
  then have "(2::rat) powi exponent x \<le> 2 powi (k - 53)"
    by (rule power_int_increasing) simp
  moreover have "(2::rat) powi (k - 53) / 2 = 2 powi (k - 54)"
    using power_int_diff [of "2::rat" "k - 53" 1] by simp
  ultimately have "(2::rat) powi exponent x / 2 \<le> 2 powi (k - 54)"
    by simp
  with round_double_error [OF False] show ?thesis by linarith
qed

lemma round_double_pos: "0 < x \<Longrightarrow> 0 < round_double x"
proof -
  assume x: "0 < x"
  then have nz: "x \<noteq> 0" by simp
  define s :: rat where "s = 2 powi exponent x"
  have spos: "0 < s" by (simp add: s_def)
  from exponent_bounds [OF nz] have "2 powi (exponent x + 52) \<le> x"
    using x by simp
  then have "2 ^ 52 * s \<le> x"
    by (simp add: s_def power_int_add mult.commute)
  then have "2 ^ 52 \<le> x / s"
    using spos by (simp add: pos_le_divide_eq)
  moreover from rne_error [of "x / s"] have "x / s - 1 / 2 \<le> rat_of_int (rne (x / s))"
    by (simp only: abs_le_iff) linarith
  moreover have "(1::rat) \<le> 2 ^ 52" by simp
  ultimately have "0 < rat_of_int (rne (x / s))" by linarith
  then show ?thesis
    using nz spos by (simp add: round_double_def s_def [symmetric])
qed

lemma round_double_neg: "x < 0 \<Longrightarrow> round_double x < 0"
proof -
  assume x: "x < 0"
  then have nz: "x \<noteq> 0" by simp
  define s :: rat where "s = 2 powi exponent x"
  have spos: "0 < s" by (simp add: s_def)
  from exponent_bounds [OF nz] have "2 powi (exponent x + 52) \<le> - x"
    using x by simp
  then have h: "2 ^ 52 * s \<le> - x"
    by (simp add: s_def power_int_add mult.commute)
  have "x / s \<le> - (2 ^ 52)"
    using pos_le_divide_eq [OF spos, of "2 ^ 52" "- x"] h by simp
  moreover from rne_error [of "x / s"] have "rat_of_int (rne (x / s)) \<le> x / s + 1 / 2"
    by (simp only: abs_le_iff) linarith
  moreover have "(1::rat) \<le> 2 ^ 52" by simp
  ultimately have "rat_of_int (rne (x / s)) < 0" by linarith
  then show ?thesis
    using nz spos by (simp add: round_double_def s_def [symmetric] mult_neg_pos)
qed

lemma floor_rat_numeral: "\<lfloor>(numeral a :: rat) / numeral b\<rfloor> = numeral a div numeral b"
  using floor_divide_of_int_eq [of "numeral a" "numeral b", where ?'a = rat] by simp


lemma ceiling_double_sixth:
  assumes "0 \<le> n" "n < 2 ^ 53"
  shows "\<lceil>round_double (rat_of_int n / 6)\<rceil> = \<lceil>rat_of_int n / 6\<rceil>"
proof (cases "6 dvd n")
  case True
  then obtain q where q: "n = 6 * q" by (elim dvdE)
  with assms have "\<bar>q\<bar> < 2 ^ 53" by simp
  then have "round_double (rat_of_int q) = rat_of_int q"
    by (rule round_double_int)
  moreover have "rat_of_int n / 6 = rat_of_int q"
    by (simp add: q)
  ultimately show ?thesis by simp
next
  case False
  define q where "q = n div 6"
  define r where "r = n mod 6"
  have n: "n = 6 * q + r" by (simp add: q_def r_def)
  have r: "1 \<le> r" "r \<le> 5"
    using False by (simp_all add: r_def) presburger+
  define x where "x = rat_of_int n / 6"
  have x: "x = rat_of_int q + rat_of_int r / 6"
    by (simp add: x_def n)
  have r1: "rat_of_int 1 \<le> rat_of_int r" "rat_of_int r \<le> rat_of_int 5"
    using r by (simp_all only: of_int_le_iff)
  have xlo: "rat_of_int q + 1 / 6 \<le> x" and xhi: "x \<le> rat_of_int q + 5 / 6"
    using r1 by (simp_all add: x)
  have "rat_of_int \<bar>n\<bar> < rat_of_int (2 ^ 53)"
    using assms by (simp only: of_int_less_iff abs_of_nonneg)
  then have "\<bar>x\<bar> < 2 powi 51"
    by (simp add: x_def)
  from round_double_close [OF this] have close: "\<bar>round_double x - x\<bar> \<le> 1 / 8"
    by simp
  have c1: "\<lceil>x\<rceil> = q + 1"
    using xlo xhi by (intro ceiling_unique) simp_all
  have c2: "\<lceil>round_double x\<rceil> = q + 1"
  proof (rule ceiling_unique)
    from close have near: "x - 1 / 8 \<le> round_double x" "round_double x \<le> x + 1 / 8"
      by (simp_all only: abs_le_iff) linarith+
    have "rat_of_int q < round_double x"
      using xlo near(1) by linarith
    then show "rat_of_int (q + 1) - 1 < round_double x"
      by simp
    have "round_double x \<le> rat_of_int q + 1"
      using xhi near(2) by linarith
    then show "round_double x \<le> rat_of_int (q + 1)"
      by simp
  qed
  show ?thesis
    using c1 c2 by (simp add: x_def)
qed

lemma round_double_E1: "round_double 54043195528445940 = 54043195528445936"
proof -
  have "round_double 54043195528445940 =
      rat_of_int (rne (54043195528445940 / 2 powi 3)) * 2 powi 3"
    by (rule round_double_at) simp_all
  then show ?thesis
    by (simp add: rne_def Let_def floor_rat_numeral)
qed





lemma round_double_E6: "round_double 9007199254740997 = 9007199254740996"
proof -
  have "round_double 9007199254740997 =
      rat_of_int (rne (9007199254740997 / 2 powi 1)) * 2 powi 1"
    by (rule round_double_at) simp_all
  then show ?thesis
    by (simp add: rne_def Let_def floor_rat_numeral)
qed

section \<open>Properties of the utilities\<close>

subsection \<open>generatePagination\<close>





subsection \<open>formatCurrency\<close>


















lemma formatCurrency_zero: "formatCurrency 0 = ''$0.00''"
  by (simp add: formatCurrency_def round_double_0 toLocaleString_en_US_USD_def
      usd_of_cents_def pad2_def show_nat.simps group3.simps digit_char_def)






subsection \<open>generateYAxis\<close>

lemma ceil_thousand_dvd: "ceil_thousand x = Num t \<Longrightarrow> 1000 dvd t"
  by (cases x) auto












text \<open>
  Claim C9. On the empty revenue list \<open>generateYAxis\<close> returns normally: the loop body never
  runs, \<open>yAxisLabels\<close> is empty and \<open>topLabel\<close> is \<open>-Infinity\<close>, the rounded maximum of no
  values.
\<close>

theorem generateYAxis_empty:
  "generateYAxis [] = \<lparr>yAxisLabels = [], topLabel = NegInfinity\<rparr>"
  by (simp add: generateYAxis_def Math_max_def)

section \<open>Properties of the query functions\<close>

subsection \<open>Errors\<close>

lemma try_catch_Inl: "try_catch msg (Inl e) = Inl (Error msg)"
  by (simp add: try_catch_def)

lemma try_catch_error: "try_catch msg body = Inl err \<Longrightarrow> err = Error msg \<and> (\<exists>e. body = Inl e)"
  by (cases body) (simp_all add: try_catch_def)

text \<open>
  Claim C4. Whenever the database call of a query function rejects with an error \<open>e\<close>,
  whatever \<open>e\<close> is, the function throws \<open>Error\<close> with its own fixed message, and so never
  \<open>e\<close> itself unless \<open>e\<close> is that very error. For \<open>fetchCardData\<close> the failure of any one of
  its three statements makes the whole call throw \<open>Error 'Failed to fetch card data.'\<close>:
  the result is the error, with no part of the card data.
\<close>

theorem database_errors_translated:
  "(select_revenue sql = Inl e \<longrightarrow>
      fetchRevenue sql = Inl (Error ''Failed to fetch revenue data.'')) \<and>
   (select_latest_invoices sql = Inl e \<longrightarrow>
      fetchLatestInvoices sql = Inl (Error ''Failed to fetch the latest invoices.'')) \<and>
   (select_invoice_count sql = Inl e \<or> select_customer_count sql = Inl e \<or>
    select_invoice_status sql = Inl e \<longrightarrow>
      fetchCardData sql = Inl (Error ''Failed to fetch card data.'')) \<and>
   (select_filtered_invoices sql (like_pattern query) ITEMS_PER_PAGE (offset currentPage) = Inl e \<longrightarrow>
      fetchFilteredInvoices sql query currentPage = Inl (Error ''Failed to fetch invoices.'')) \<and>
   (select_invoices_count sql (like_pattern query) = Inl e \<longrightarrow>
      fetchInvoicesPages sql query = Inl (Error ''Failed to fetch total number of invoices.'')) \<and>
   (select_invoice_by_id sql ident = Inl e \<longrightarrow>
      fetchInvoiceById sql ident = Inl (Error ''Failed to fetch invoice.'')) \<and>
   (select_customers sql = Inl e \<longrightarrow>
      fetchCustomers sql = Inl (Error ''Failed to fetch all customers.'')) \<and>
   (select_filtered_customers sql (like_pattern query) = Inl e \<longrightarrow>
      fetchFilteredCustomers sql query = Inl (Error ''Failed to fetch customer table.''))"
proof (intro conjI impI)
  assume "select_invoice_count sql = Inl e \<or> select_customer_count sql = Inl e \<or>
    select_invoice_status sql = Inl e"
  then show "fetchCardData sql = Inl (Error ''Failed to fetch card data.'')"
    unfolding fetchCardData_def
    by (auto simp: try_catch_Inl split: sum.splits)
qed (simp_all add: fetchRevenue_def fetchLatestInvoices_def fetchFilteredInvoices_def
      fetchInvoicesPages_def fetchInvoiceById_def fetchCustomers_def fetchFilteredCustomers_def
      try_catch_Inl)

theorem database_errors_translated_witness:
  "fetchRevenue refused = Inl (Error ''Failed to fetch revenue data.'') \<and>
   fetchLatestInvoices refused = Inl (Error ''Failed to fetch the latest invoices.'') \<and>
   fetchCardData refused = Inl (Error ''Failed to fetch card data.'') \<and>
   fetchCardData ((pg example_engine example_db)
       \<lparr>select_invoice_status := Inl (PostgresError ''timeout'')\<rparr>) =
     Inl (Error ''Failed to fetch card data.'') \<and>
   fetchFilteredInvoices refused ''a'' 1 = Inl (Error ''Failed to fetch invoices.'') \<and>
   fetchInvoicesPages refused ''a'' = Inl (Error ''Failed to fetch total number of invoices.'') \<and>
   fetchInvoiceById refused ''i1'' = Inl (Error ''Failed to fetch invoice.'') \<and>
   fetchCustomers refused = Inl (Error ''Failed to fetch all customers.'') \<and>
   fetchFilteredCustomers refused ''a'' = Inl (Error ''Failed to fetch customer table.'')"
  using database_errors_translated
      [of refused "PostgresError ''connection refused''" "''a''" 1 "''i1''"]
    database_errors_translated
      [of "(pg example_engine example_db)\<lparr>select_invoice_status := Inl (PostgresError ''timeout'')\<rparr>"
          "PostgresError ''timeout''"]
  by (simp add: refused_def)

text \<open>
  Claim C10. When the database call succeeds and no invoice has the given identifier,
  \<open>fetchInvoiceById\<close> returns \<open>undefined\<close> and throws nothing. It throws exactly when the
  database call fails, and then what it throws is \<open>Error 'Failed to fetch invoice.'\<close>.
\<close>

theorem fetchInvoiceById_no_match:
  "(select_invoice_by_id sql ident = Inr [] \<longrightarrow> fetchInvoiceById sql ident = Inr None) \<and>
   ((\<exists>err. fetchInvoiceById sql ident = Inl err) \<longleftrightarrow>
      (\<exists>e. select_invoice_by_id sql ident = Inl e)) \<and>
   (fetchInvoiceById sql ident = Inl err \<longrightarrow> err = Error ''Failed to fetch invoice.'') \<and>
   ((\<forall>i \<in> set (invoices db). invoices_id i \<noteq> ident) \<longrightarrow>
      fetchInvoiceById (pg eng db) ident = Inr None)"
proof (intro conjI impI)
  show "(\<exists>err. fetchInvoiceById sql ident = Inl err) \<longleftrightarrow>
      (\<exists>e. select_invoice_by_id sql ident = Inl e)"
    by (cases "select_invoice_by_id sql ident")
      (simp_all add: fetchInvoiceById_def try_catch_def)
next
  assume "fetchInvoiceById sql ident = Inl err"
  then show "err = Error ''Failed to fetch invoice.''"
    unfolding fetchInvoiceById_def by (auto dest: try_catch_error)
next
  assume "\<forall>i \<in> set (invoices db). invoices_id i \<noteq> ident"
  then have "filter (\<lambda>i. invoices_id i = ident) (invoices db) = []"
    by (simp add: filter_empty_conv)
  then show "fetchInvoiceById (pg eng db) ident = Inr None"
    by (simp add: fetchInvoiceById_def pg_def try_catch_def)
qed (simp add: fetchInvoiceById_def try_catch_def)

theorem fetchInvoiceById_no_match_witness:
  "fetchInvoiceById (pg example_engine example_db) ''i9'' = Inr None \<and>
   fetchInvoiceById refused ''i1'' = Inl (Error ''Failed to fetch invoice.'')"
proof -
  have a: "\<forall>i \<in> set (invoices example_db). invoices_id i \<noteq> ''i9''"
    by (simp add: example_db_def)
  have b: "\<exists>e. select_invoice_by_id refused ''i1'' = Inl e"
    by (simp add: refused_def)
  from fetchInvoiceById_no_match [of "pg example_engine example_db" "''i9''" _ example_db
      example_engine] a
  have "fetchInvoiceById (pg example_engine example_db) ''i9'' = Inr None" by blast
  moreover from fetchInvoiceById_no_match [of refused "''i1''" _ example_db] b
  have "fetchInvoiceById refused ''i1'' = Inl (Error ''Failed to fetch invoice.'')" by blast
  ultimately show ?thesis by simp
qed

subsection \<open>The filter\<close>

text \<open>
  \<open>ILIKE '%query%'\<close> is a test for a substring, letter case aside, as long as the query has
  none of the characters that are special in a pattern. A query with such a character is
  a pattern of its own: \<open>a_b\<close> matches \<open>Evil Rabbit\<close>, which does not contain it.
\<close>

lemma like_match_percent:
  "like_match (CHR ''%'' # ps) s \<longleftrightarrow> (\<exists>u t. s = u @ t \<and> like_match ps t)"
proof (induction s)
  case Nil
  then show ?case by simp
next
  case (Cons c s)
  have "(\<exists>u t. c # s = u @ t \<and> like_match ps t) \<longleftrightarrow>
      like_match ps (c # s) \<or> (\<exists>u t. s = u @ t \<and> like_match ps t)"
    by (auto simp: Cons_eq_append_conv)
  with Cons show ?case by simp
qed

lemma like_match_literal:
  "\<forall>c \<in> set q. \<not> like_meta c \<Longrightarrow>
   like_match (q @ ps) s \<longleftrightarrow> (\<exists>t. s = q @ t \<and> like_match ps t)"
proof (induction q arbitrary: s)
  case Nil
  then show ?case by simp
next
  case (Cons c q)
  then have c: "c \<noteq> CHR ''%''" "c \<noteq> CHR ''_''" "c \<noteq> CHR 0x5C"
    by (simp_all add: like_meta_def)
  from Cons have "\<forall>c \<in> set q. \<not> like_meta c" by simp
  note IH = Cons.IH [OF this]
  show ?case
  proof (cases s)
    case Nil
    with c show ?thesis by simp
  next
    case (Cons d t)
    with c IH [of t] show ?thesis by auto
  qed
qed

lemma like_match_any: "like_match ''%'' s"
proof -
  have "\<exists>u t. s = u @ t \<and> like_match [] t"
    by (intro exI [of _ s] exI [of _ "[]"]) simp
  then show ?thesis
    by (simp only: like_match_percent)
qed

lemma like_pattern_substring:
  assumes "\<forall>c \<in> set q. \<not> like_meta c"
  shows "like_match (like_pattern q) s \<longleftrightarrow> (\<exists>u v. s = u @ q @ v)"
proof -
  have "like_match (like_pattern q) s \<longleftrightarrow> (\<exists>u t. s = u @ t \<and> like_match (q @ ''%'') t)"
    unfolding like_pattern_def by (rule like_match_percent)
  also have "\<dots> \<longleftrightarrow> (\<exists>u t. s = u @ t \<and> (\<exists>v. t = q @ v))"
    by (simp only: like_match_literal [OF assms] like_match_any simp_thms)
  also have "\<dots> \<longleftrightarrow> (\<exists>u v. s = u @ q @ v)"
    by blast
  finally show ?thesis .
qed

lemma to_lower_meta: "like_meta (to_lower c) \<longleftrightarrow> like_meta c"
  by (auto simp: to_lower_def like_meta_def split: option.splits if_splits)

lemma to_lower_percent: "to_lower CHR ''%'' = CHR ''%''"
  by (simp add: to_lower_def)

lemma ilike_substring:
  assumes "\<forall>c \<in> set q. \<not> like_meta c"
  shows "ilike s (like_pattern q) \<longleftrightarrow> (\<exists>u v. map to_lower s = u @ map to_lower q @ v)"
proof -
  have "map to_lower (like_pattern q) = like_pattern (map to_lower q)"
    by (simp add: like_pattern_def to_lower_percent)
  moreover have "\<forall>c \<in> set (map to_lower q). \<not> like_meta c"
    using assms by (simp add: to_lower_meta)
  ultimately show ?thesis
    by (simp only: ilike_def like_pattern_substring)
qed

lemma ilike_contains:
  assumes "\<forall>c \<in> set q. \<not> like_meta c"
  shows "ilike s (CHR ''%'' # q @ ''%'') \<longleftrightarrow> contains_ci q s"
  using ilike_substring [OF assms, of s]
  by (simp add: like_pattern_def contains_ci_def sublist_def)

lemma invoice_matches_contains:
  assumes "\<forall>c \<in> set q. \<not> like_meta c"
  shows "invoice_matches (CHR ''%'' # q @ ''%'') = row_contains q"
  by (rule ext) (simp add: invoice_matches_def row_contains_def ilike_contains [OF assms]
      split: prod.splits)

lemma map_filter_concat:
  "map f (filter P xs) = concat (map (\<lambda>x. if P x then [f x] else []) xs)"
  by (induction xs) simp_all

lemma join_comprehension:
  "invoices_join_customers db =
     [(i, c). i \<leftarrow> invoices db, c \<leftarrow> customers db, invoices_customer_id i = customers_id c]"
  by (simp add: invoices_join_customers_def map_filter_concat)

text \<open>
  On the example data the query \<open>RABBIT\<close> and the pattern \<open>a_b\<close> both select the two invoices
  of \<open>Evil Rabbit\<close>, and the query \<open>zzz\<close> selects none.
\<close>

lemma ilike_rabbit_name: "ilike ''Evil Rabbit'' (like_pattern ''RABBIT'')"
  by (simp add: ilike_def like_pattern_def to_lower_def)

lemma ilike_wildcard_example: "ilike ''Evil Rabbit'' (like_pattern ''a_b'')"
  by (simp add: ilike_def like_pattern_def to_lower_def)

lemma example_joined:
  "[(i, c). i \<leftarrow> invoices example_db, c \<leftarrow> customers example_db,
      invoices_customer_id i = customers_id c] =
     [(invoices example_db ! 0, customers example_db ! 0),
      (invoices example_db ! 1, customers example_db ! 0),
      (invoices example_db ! 2, customers example_db ! 2)]"
  by (simp add: example_db_def)

lemma example_lee_row:
  "\<not> invoice_matches (like_pattern ''RABBIT'') (invoices example_db ! 2, customers example_db ! 2)"
  "\<not> invoice_matches (like_pattern ''a_b'') (invoices example_db ! 2, customers example_db ! 2)"
  by (simp_all add: invoice_matches_def example_db_def ilike_def like_pattern_def to_lower_def
      show_int_def show_nat.simps digit_char_def date_text_def pad_left_def)

lemma example_matching:
  "filter (invoice_matches (like_pattern ''RABBIT''))
     [(i, c). i \<leftarrow> invoices example_db, c \<leftarrow> customers example_db,
      invoices_customer_id i = customers_id c] =
     [(invoices example_db ! 0, customers example_db ! 0),
      (invoices example_db ! 1, customers example_db ! 0)]"
  unfolding example_joined
  using ilike_rabbit_name example_lee_row(1)
  by (simp add: invoice_matches_def example_db_def)

lemma example_matching_wildcard:
  "filter (invoice_matches (like_pattern ''a_b''))
     [(i, c). i \<leftarrow> invoices example_db, c \<leftarrow> customers example_db,
      invoices_customer_id i = customers_id c] =
     [(invoices example_db ! 0, customers example_db ! 0),
      (invoices example_db ! 1, customers example_db ! 0)]"
  unfolding example_joined
  using ilike_wildcard_example example_lee_row(2)
  by (simp add: invoice_matches_def example_db_def)

lemma example_no_zzz:
  "filter (invoice_matches (CHR ''%'' # ''zzz'' @ ''%''))
     [(i, c). i \<leftarrow> invoices example_db, c \<leftarrow> customers example_db,
      invoices_customer_id i = customers_id c] = []"
  unfolding example_joined
  by (simp add: invoice_matches_def example_db_def ilike_def to_lower_def
      show_int_def show_nat.simps digit_char_def date_text_def pad_left_def)

lemma example_contains_wildcard:
  "filter (row_contains ''a_b'')
     [(i, c). i \<leftarrow> invoices example_db, c \<leftarrow> customers example_db,
      invoices_customer_id i = customers_id c] = []"
proof -
  have texts: "show_int 15795 = ''15795''" "show_int 20348 = ''20348''" "show_int 3040 = ''3040''"
    "date_text (2022, 12, 6) = ''2022-12-06''" "date_text (2023, 1, 14) = ''2023-01-14''"
    "date_text (2022, 10, 29) = ''2022-10-29''"
    by (simp_all add: show_int_def show_nat.simps digit_char_def date_text_def pad_left_def)
  have lower: "map to_lower ''a_b'' = ''a_b''"
    "map to_lower ''Evil Rabbit'' = ''evil rabbit''"
    "map to_lower ''evil@rabbit.com'' = ''evil@rabbit.com''"
    "map to_lower ''Lee'' = ''lee''"
    "map to_lower ''lee@robinson.com'' = ''lee@robinson.com''"
    "map to_lower ''15795'' = ''15795''" "map to_lower ''20348'' = ''20348''"
    "map to_lower ''3040'' = ''3040''"
    "map to_lower ''2022-12-06'' = ''2022-12-06''" "map to_lower ''2023-01-14'' = ''2023-01-14''"
    "map to_lower ''2022-10-29'' = ''2022-10-29''"
    "map to_lower ''pending'' = ''pending''" "map to_lower ''paid'' = ''paid''"
    by (simp_all add: to_lower_def)
  have no: "\<not> contains_ci ''a_b'' ''Evil Rabbit''" "\<not> contains_ci ''a_b'' ''evil@rabbit.com''"
    "\<not> contains_ci ''a_b'' ''Lee''" "\<not> contains_ci ''a_b'' ''lee@robinson.com''"
    "\<not> contains_ci ''a_b'' ''15795''" "\<not> contains_ci ''a_b'' ''20348''"
    "\<not> contains_ci ''a_b'' ''3040''"
    "\<not> contains_ci ''a_b'' ''2022-12-06''" "\<not> contains_ci ''a_b'' ''2023-01-14''"
    "\<not> contains_ci ''a_b'' ''2022-10-29''"
    "\<not> contains_ci ''a_b'' ''pending''" "\<not> contains_ci ''a_b'' ''paid''"
    unfolding contains_ci_def lower by (simp_all add: sublist_code)
  show ?thesis
    unfolding example_joined
    by (simp add: row_contains_def example_db_def texts texts [unfolded One_nat_def] no)
qed

subsection \<open>The offset\<close>

lemma offset_exact:
  assumes "\<bar>currentPage - 1\<bar> * 6 < 2 ^ 53"
  shows "offset currentPage = rat_of_int ((currentPage - 1) * 6)"
proof -
  from assms have a: "\<bar>currentPage - 1\<bar> < 2 ^ 53" by simp
  have "\<bar>(currentPage - 1) * 6\<bar> = \<bar>currentPage - 1\<bar> * 6"
    by (simp only: abs_mult abs_numeral)
  with assms have b: "\<bar>(currentPage - 1) * 6\<bar> < 2 ^ 53"
    by (simp only:)
  have "round_double (rat_of_int currentPage - 1) = rat_of_int (currentPage - 1)"
    using round_double_int [OF a] by simp
  moreover have "rat_of_int (currentPage - 1) * rat_of_int 6 = rat_of_int ((currentPage - 1) * 6)"
    by simp
  ultimately show ?thesis
    unfolding offset_def ITEMS_PER_PAGE_def
    by (simp only: round_double_int [OF b])
qed

lemma offset_sign: "0 \<le> offset currentPage \<longleftrightarrow> 1 \<le> currentPage"
proof (cases "currentPage < 1")
  case True
  then have "rat_of_int currentPage - 1 < 0" by simp
  then have "round_double (rat_of_int currentPage - 1) < 0"
    by (rule round_double_neg)
  then have "round_double (rat_of_int currentPage - 1) * rat_of_int ITEMS_PER_PAGE < 0"
    by (simp add: ITEMS_PER_PAGE_def)
  then have "offset currentPage < 0"
    unfolding offset_def by (rule round_double_neg)
  with True show ?thesis by simp
next
  case False
  show ?thesis
  proof (cases "currentPage = 1")
    case True
    then show ?thesis by (simp add: offset_def round_double_0)
  next
    case False
    with \<open>\<not> currentPage < 1\<close> have "0 < rat_of_int currentPage - 1" by simp
    then have "0 < round_double (rat_of_int currentPage - 1)"
      by (rule round_double_pos)
    then have "0 < round_double (rat_of_int currentPage - 1) * rat_of_int ITEMS_PER_PAGE"
      by (simp add: ITEMS_PER_PAGE_def)
    then have "0 < offset currentPage"
      unfolding offset_def by (rule round_double_pos)
    with \<open>\<not> currentPage < 1\<close> show ?thesis by simp
  qed
qed

lemma limit_offset_negative: "k < 0 \<Longrightarrow> \<exists>e. limit_offset 6 k rows = Inl e"
  by (simp add: limit_offset_def)

lemma limit_offset_exact:
  assumes "0 \<le> k" "k < 2 ^ 53"
  shows "limit_offset 6 (rat_of_int k) rows = Inr (take 6 (drop (nat k) rows))"
proof -
  have "rat_of_int k < rat_of_int (2 ^ 53)"
    using assms(2) by (simp only: of_int_less_iff)
  then have "\<not> 2 ^ 63 \<le> rat_of_int k" by simp
  moreover have "\<not> rat_of_int k < 0" using assms(1) by simp
  ultimately show ?thesis
    by (simp add: limit_offset_def)
qed

text \<open>
  Claim C5, as amended. \<open>fetchFilteredInvoices\<close> hands the database the limit 6 and the
  offset that the double arithmetic of \<open>(currentPage - 1) * 6\<close> gives. For every integer
  \<open>currentPage\<close> with \<open>|currentPage - 1| * 6 < 2^53\<close> that offset is the integer
  \<open>(currentPage - 1) * 6\<close>, a multiple of 6. For every \<open>currentPage\<close> the offset is
  non-negative exactly when \<open>currentPage \<ge> 1\<close>. The function checks nothing: for
  \<open>currentPage < 1\<close> the negative offset reaches the database, which refuses it, and the call
  throws \<open>Error 'Failed to fetch invoices.'\<close>.
\<close>

theorem offset_multiple:
  "fetchFilteredInvoices sql query currentPage =
     try_catch ''Failed to fetch invoices.''
       (select_filtered_invoices sql (CHR ''%'' # query @ ''%'') 6 (offset currentPage)) \<and>
   (\<bar>currentPage - 1\<bar> * 6 < 2 ^ 53 \<longrightarrow>
      offset currentPage = rat_of_int (6 * (currentPage - 1))) \<and>
   (0 \<le> offset currentPage \<longleftrightarrow> 1 \<le> currentPage) \<and>
   (currentPage < 1 \<longrightarrow>
      fetchFilteredInvoices (pg eng db) query currentPage =
        Inl (Error ''Failed to fetch invoices.''))"
proof (intro conjI impI)
  show "fetchFilteredInvoices sql query currentPage =
     try_catch ''Failed to fetch invoices.''
       (select_filtered_invoices sql (CHR ''%'' # query @ ''%'') 6 (offset currentPage))"
    by (simp add: fetchFilteredInvoices_def like_pattern_def ITEMS_PER_PAGE_def)
next
  assume "\<bar>currentPage - 1\<bar> * 6 < 2 ^ 53"
  then show "offset currentPage = rat_of_int (6 * (currentPage - 1))"
    by (simp add: offset_exact mult.commute)
next
  show "0 \<le> offset currentPage \<longleftrightarrow> 1 \<le> currentPage"
    by (rule offset_sign)
next
  assume "currentPage < 1"
  then have "offset currentPage < 0"
    using offset_sign [of currentPage] by simp
  from limit_offset_negative [OF this]
  obtain e where "limit_offset 6 (offset currentPage)
      (map invoices_table_row
        (order_by_date_desc eng (matching_invoices db (like_pattern query)))) = Inl e"
    by blast
  then show "fetchFilteredInvoices (pg eng db) query currentPage =
      Inl (Error ''Failed to fetch invoices.'')"
    by (simp add: fetchFilteredInvoices_def pg_def ITEMS_PER_PAGE_def try_catch_def)
qed

theorem offset_multiple_witness:
  "offset 3 = 12 \<and> offset (- 2) = - 18 \<and> \<not> 0 \<le> offset (- 2) \<and>
   fetchFilteredInvoices (pg example_engine example_db) ''RABBIT'' (- 2) =
     Inl (Error ''Failed to fetch invoices.'')"
proof -
  from offset_multiple [of "pg example_engine example_db" "''RABBIT''" 3 example_engine
      example_db]
  have a: "offset 3 = 12" by simp
  note neg = offset_multiple [of "pg example_engine example_db" "''RABBIT''" "- 2"
      example_engine example_db]
  from neg have b: "offset (- 2) = - 18" by simp
  from neg have b': "\<not> 0 \<le> offset (- 2)" by simp
  have "(- 2 :: int) < 1" by simp
  with neg have c: "fetchFilteredInvoices (pg example_engine example_db) ''RABBIT'' (- 2) =
      Inl (Error ''Failed to fetch invoices.'')"
    by blast
  from a b b' c show ?thesis by (intro conjI)
qed

lemma offset_2_53: "offset 9007199254740991 = 54043195528445936"
proof -
  have "\<bar>9007199254740990 :: int\<bar> < 2 ^ 53" by simp
  from round_double_int [OF this]
  have a: "round_double (rat_of_int 9007199254740991 - 1) = 9007199254740990"
    by simp
  have b: "(9007199254740990 :: rat) * rat_of_int 6 = 54043195528445940"
    by simp
  show ?thesis
    unfolding offset_def ITEMS_PER_PAGE_def a b by (rule round_double_E1)
qed


lemma offset_0: "offset 0 = - 6"
  using offset_exact [of 0] by simp

text \<open>
  Claim C5 as stated (for every page number the function takes, the offset is
  \<open>(currentPage - 1) * 6\<close>, non-negative and a multiple of 6) fails at \<open>currentPage = 0\<close>,
  where the offset is \<open>-6\<close>, and at \<open>currentPage = 9007199254740991\<close>, where the product is
  rounded to \<open>54043195528445936\<close>, which is neither \<open>(currentPage - 1) * 6\<close> nor a multiple
  of 6.
\<close>

theorem offset_negative_counterexample:
  "offset 0 = - 6 \<and> \<not> 0 \<le> offset 0 \<and>
   offset 9007199254740991 = 54043195528445936 \<and>
   offset 9007199254740991 \<noteq> rat_of_int ((9007199254740991 - 1) * 6) \<and>
   \<not> 6 dvd (54043195528445936 :: int)"
  by (simp add: offset_0 offset_2_53)

subsection \<open>A page of invoices\<close>





lemma order_by_date_desc_length: "length (order_by_date_desc eng rows) = length rows"
  by (simp add: order_by_date_desc_def)


lemma fetchFilteredInvoices_window:
  assumes "1 \<le> page" "(page - 1) * 6 < 2 ^ 53"
  shows "fetchFilteredInvoices (pg eng db) query page =
           Inr (take 6 (drop (nat ((page - 1) * 6))
                  (map invoices_table_row
                     (order_by_date_desc eng (matching_invoices db (like_pattern query))))))"
proof -
  have nonneg: "0 \<le> (page - 1) * 6" using assms(1) by simp
  have "\<bar>page - 1\<bar> * 6 < 2 ^ 53" using assms by simp
  then have "offset page = rat_of_int ((page - 1) * 6)"
    by (rule offset_exact)
  then show ?thesis
    by (simp only: fetchFilteredInvoices_def pg_def sql_conn.simps ITEMS_PER_PAGE_def
        limit_offset_exact [OF nonneg assms(2)] try_catch_def sum.case)
qed




subsection \<open>The number of pages\<close>

lemma window_empty_iff: "take 6 (drop k xs) = [] \<longleftrightarrow> length xs \<le> k"
  by simp

lemma ceiling_sixth: "\<lceil>rat_of_nat n / 6\<rceil> = int ((n + 5) div 6)"
proof -
  have "- (rat_of_int (int n) / rat_of_int 6) = rat_of_int (- int n) / rat_of_int 6"
    by simp
  then have "\<lfloor>- (rat_of_int (int n) / rat_of_int 6)\<rfloor> = - int n div 6"
    by (simp only: floor_divide_of_int_eq)
  then have "\<lceil>rat_of_int (int n) / rat_of_int 6\<rceil> = - (- int n div 6)"
    by (simp add: ceiling_def)
  moreover have "- (- int n div 6) = int ((n + 5) div 6)"
    by (simp add: zdiv_int)
  ultimately show ?thesis
    by simp
qed

lemma pages_of_count:
  assumes "n < 2 ^ 53"
  shows "\<lceil>round_double (Number (BigintText (int n)) / rat_of_int ITEMS_PER_PAGE)\<rceil> =
           \<lceil>rat_of_nat n / 6\<rceil>"
proof -
  have b: "int n < 2 ^ 53"
    using assms by (metis of_nat_less_iff of_nat_numeral of_nat_power)
  then have "\<bar>int n\<bar> < 2 ^ 53" by simp
  then have "Number (BigintText (int n)) = rat_of_int (int n)"
    by (simp only: Number.simps round_double_int)
  then show ?thesis
    using ceiling_double_sixth [of "int n", OF _ b]
    by (simp add: ITEMS_PER_PAGE_def)
qed

text \<open>
  \<open>Number\<close> of a count is the count itself only below \<open>2^53\<close>. The count
  \<open>9007199254740997\<close> is read as \<open>9007199254740996\<close>, a multiple of 6, and the number of
  pages comes out one too small.
\<close>

lemma fetchInvoicesPages_big_count:
  "fetchInvoicesPages
     (refused\<lparr>select_invoices_count :=
        (\<lambda>pat. Inr [\<lparr>count = BigintText 9007199254740997\<rparr>])\<rparr>) query =
     Inr 1501199875790166 \<and>
   \<lceil>9007199254740997 / 6 :: rat\<rceil> = 1501199875790167"
proof -
  have "\<bar>1501199875790166 :: int\<bar> < 2 ^ 53" by simp
  from round_double_int [OF this]
  have "round_double (9007199254740996 / 6) = 1501199875790166"
    by simp
  moreover have "\<lceil>9007199254740997 / 6 :: rat\<rceil> = 1501199875790167"
    by (rule ceiling_unique) simp_all
  ultimately show ?thesis
    by (simp add: fetchInvoicesPages_def try_catch_def ITEMS_PER_PAGE_def round_double_E6)
qed

text \<open>
  Claim C2, as amended. For every query string, with \<open>n\<close> the number of rows of the join
  that satisfy the \<open>WHERE\<close> clause of \<open>fetchFilteredInvoices\<close> for the pattern \<open>%query%\<close>:
  when \<open>n < 2^53\<close>, \<open>fetchInvoicesPages\<close> on the database returns \<open>ceil(n / 6)\<close>, which is
  \<open>(n + 5) div 6\<close>. For a query without the characters \<open>%\<close>, \<open>_\<close> and backslash, \<open>n\<close> is the
  number of rows that contain the query, letter case aside, in one of the five searchable
  columns. The filter is the one of \<open>fetchFilteredInvoices\<close>: of the pages \<open>page \<ge> 1\<close> with
  \<open>(page - 1) * 6 < 2^53\<close>, those up to \<open>ceil(n / 6)\<close> are exactly the ones on which
  \<open>fetchFilteredInvoices\<close> returns a row.
\<close>

theorem fetchInvoicesPages_pages:
  "let joined = [(i, c). i \<leftarrow> invoices db, c \<leftarrow> customers db,
                   invoices_customer_id i = customers_id c];
       n = length (filter (invoice_matches (CHR ''%'' # query @ ''%'')) joined)
   in (n < 2 ^ 53 \<longrightarrow> fetchInvoicesPages (pg eng db) query = Inr \<lceil>rat_of_nat n / 6\<rceil>) \<and>
      \<lceil>rat_of_nat n / 6\<rceil> = int ((n + 5) div 6) \<and>
      ((\<forall>c \<in> set query. \<not> like_meta c) \<longrightarrow>
         n = length (filter (row_contains query) joined)) \<and>
      (n < 2 ^ 53 \<and> 1 \<le> page \<and> (page - 1) * 6 < 2 ^ 53 \<longrightarrow>
         (fetchFilteredInvoices (pg eng db) query page \<noteq> Inr [] \<longleftrightarrow>
            page \<le> \<lceil>rat_of_nat n / 6\<rceil>))"
proof -
  define n where "n = length (matching_invoices db (like_pattern query))"
  have m: "matching_invoices db (like_pattern query) =
      filter (invoice_matches (CHR ''%'' # query @ ''%''))
        [(i, c). i \<leftarrow> invoices db, c \<leftarrow> customers db, invoices_customer_id i = customers_id c]"
    by (simp only: matching_invoices_def like_pattern_def join_comprehension)
  have r: "fetchInvoicesPages (pg eng db) query = Inr \<lceil>rat_of_nat n / 6\<rceil>" if "n < 2 ^ 53"
    using pages_of_count [OF that]
    by (simp add: fetchInvoicesPages_def pg_def try_catch_def n_def)
  have s: "n = length (filter (row_contains query)
        [(i, c). i \<leftarrow> invoices db, c \<leftarrow> customers db, invoices_customer_id i = customers_id c])"
    if "\<forall>c \<in> set query. \<not> like_meta c"
    unfolding n_def m by (simp only: invoice_matches_contains [OF that])
  have p: "fetchFilteredInvoices (pg eng db) query page \<noteq> Inr [] \<longleftrightarrow>
      page \<le> \<lceil>rat_of_nat n / 6\<rceil>"
    if "1 \<le> page" "(page - 1) * 6 < 2 ^ 53"
  proof -
    define all where "all = map invoices_table_row
      (order_by_date_desc eng (matching_invoices db (like_pattern query)))"
    have eq: "fetchFilteredInvoices (pg eng db) query page =
        Inr (take 6 (drop (nat ((page - 1) * 6)) all))"
      unfolding all_def by (rule fetchFilteredInvoices_window [OF that])
    have len: "length all = n"
      by (simp add: all_def n_def order_by_date_desc_length)
    have "fetchFilteredInvoices (pg eng db) query page \<noteq> Inr [] \<longleftrightarrow>
        take 6 (drop (nat ((page - 1) * 6)) all) \<noteq> []"
      by (simp only: eq sum.inject)
    also have "\<dots> \<longleftrightarrow> nat ((page - 1) * 6) < n"
      by (simp only: window_empty_iff len not_le)
    also have "\<dots> \<longleftrightarrow> page \<le> int ((n + 5) div 6)"
      using that(1) by (simp add: zdiv_int) arith
    finally show ?thesis by (simp only: ceiling_sixth)
  qed
  show ?thesis
    unfolding Let_def m [symmetric] n_def [symmetric]
    using r s [unfolded m [symmetric] n_def [symmetric]] p ceiling_sixth [of n]
    by (auto simp: m)
qed

theorem fetchInvoicesPages_pages_witness:
  "fetchInvoicesPages (pg example_engine example_db) ''RABBIT'' = Inr 1 \<and>
   fetchInvoicesPages (pg example_engine example_db) ''zzz'' = Inr 0 \<and>
   length (filter (row_contains ''RABBIT'')
     [(i, c). i \<leftarrow> invoices example_db, c \<leftarrow> customers example_db,
      invoices_customer_id i = customers_id c]) = 2 \<and>
   fetchFilteredInvoices (pg example_engine example_db) ''RABBIT'' 2 = Inr []"
proof -
  have q: "\<forall>c \<in> set ''RABBIT''. \<not> like_meta c"
    by (simp add: like_meta_def)
  note t = fetchInvoicesPages_pages [of example_db "''RABBIT''" example_engine 2,
      unfolded Let_def example_matching [unfolded like_pattern_def]]
  from t have a: "fetchInvoicesPages (pg example_engine example_db) ''RABBIT'' = Inr 1"
    by simp
  from t q have c: "length (filter (row_contains ''RABBIT'')
     [(i, c). i \<leftarrow> invoices example_db, c \<leftarrow> customers example_db,
      invoices_customer_id i = customers_id c]) = 2"
    by simp
  from t have d: "fetchFilteredInvoices (pg example_engine example_db) ''RABBIT'' 2 = Inr []"
    by simp
  note u = fetchInvoicesPages_pages [of example_db "''zzz''" example_engine 1,
      unfolded Let_def example_no_zzz]
  from u have b: "fetchInvoicesPages (pg example_engine example_db) ''zzz'' = Inr 0"
    by simp
  from a b c d show ?thesis by (intro conjI)
qed

lemma example_pages_wildcard:
  "fetchInvoicesPages (pg example_engine example_db) ''a_b'' = Inr 1"
proof -
  have "matching_invoices example_db (like_pattern ''a_b'') =
      [(invoices example_db ! 0, customers example_db ! 0),
       (invoices example_db ! 1, customers example_db ! 0)]"
    unfolding matching_invoices_def join_comprehension by (rule example_matching_wildcard)
  then have n: "length (matching_invoices example_db (like_pattern ''a_b'')) = 2"
    by simp
  have "(2::nat) < 2 ^ 53" by simp
  from pages_of_count [OF this] ceiling_sixth [of 2]
  have "\<lceil>round_double (Number (BigintText 2) / rat_of_int ITEMS_PER_PAGE)\<rceil> = 1"
    by simp
  then show ?thesis
    by (simp add: fetchInvoicesPages_def pg_def try_catch_def n)
qed

text \<open>
  Claim C2 as stated (\<open>n\<close> counts the rows that contain the query as a substring, letter
  case aside) fails for the query \<open>a_b\<close> on the example data: no column of any row contains
  \<open>a_b\<close>, so \<open>n = 0\<close> and \<open>ceil(n / 6) = 0\<close>, but the underscore stands for any character,
  the pattern matches \<open>Evil Rabbit\<close>, and \<open>fetchInvoicesPages\<close> returns 1.
\<close>

theorem fetchInvoicesPages_wildcard_counterexample:
  "fetchInvoicesPages (pg example_engine example_db) ''a_b'' = Inr 1 \<and>
   length (filter (row_contains ''a_b'')
     [(i, c). i \<leftarrow> invoices example_db, c \<leftarrow> customers example_db,
      invoices_customer_id i = customers_id c]) = 0 \<and>
   fetchInvoicesPages (pg example_engine example_db) ''a_b'' \<noteq>
     Inr \<lceil>rat_of_nat (length (filter (row_contains ''a_b'')
       [(i, c). i \<leftarrow> invoices example_db, c \<leftarrow> customers example_db,
        invoices_customer_id i = customers_id c])) / 6\<rceil>"
  unfolding example_contains_wildcard example_pages_wildcard by simp

subsection \<open>The customer listing\<close>

text \<open>
  A customer who matches the filter and has no invoice keeps a row in the answer of the
  statement, with the count and the two sums 0. \<open>fetchFilteredCustomers\<close> formats the two
  sums and hands the count on as it came from the driver: the string \<open>'0'\<close>.
\<close>

lemma left_join_no_invoices:
  assumes "\<forall>i \<in> set (invoices db). invoices_customer_id i \<noteq> customers_id c"
  shows "filter (\<lambda>r. fst r = c) (customers_left_join_invoices db) =
           map (\<lambda>c'. (c', None)) (filter (\<lambda>c'. c' = c) (customers db))"
proof -
  have none: "filter (\<lambda>i. customers_id c = invoices_customer_id i) (invoices db) = []"
    using assms by (auto simp: filter_empty_conv)
  have step: "filter (\<lambda>r. fst r = c)
        (let is = filter (\<lambda>i. customers_id c' = invoices_customer_id i) (invoices db)
         in if is = [] then [(c', None)] else map (\<lambda>i. (c', Some i)) is) =
      (if c' = c then [(c', None)] else [])" for c'
    using none by (auto simp: Let_def filter_empty_conv)
  have "filter (\<lambda>r. fst r = c)
          (concat (map (\<lambda>c'.
            (let is = filter (\<lambda>i. customers_id c' = invoices_customer_id i) (invoices db)
             in if is = [] then [(c', None)] else map (\<lambda>i. (c', Some i)) is)) cs)) =
        map (\<lambda>c'. (c', None)) (filter (\<lambda>c'. c' = c) cs)" for cs
    by (induction cs) (simp_all add: step)
  then show ?thesis
    unfolding customers_left_join_invoices_def .
qed

lemma left_join_mem:
  assumes "c \<in> set (customers db)"
  shows "c \<in> fst ` set (customers_left_join_invoices db)"
proof -
  define f where "f = (\<lambda>c :: Customer.
      let is = filter (\<lambda>i. customers_id c = invoices_customer_id i) (invoices db)
      in if is = [] then [(c, None :: Invoice option)] else map (\<lambda>i. (c, Some i)) is)"
  have ne: "f c \<noteq> []"
    by (simp add: f_def Let_def)
  have all: "fst r = c" if "r \<in> set (f c)" for r
    using that by (auto simp: f_def Let_def split: if_splits)
  have "customers_left_join_invoices db = concat (map f (customers db))"
    by (simp add: customers_left_join_invoices_def f_def)
  moreover have "set (f c) \<subseteq> set (concat (map f (customers db)))"
    using assms by auto
  ultimately have sub: "set (f c) \<subseteq> set (customers_left_join_invoices db)"
    by simp
  from ne have "hd (f c) \<in> set (f c)" by (rule hd_in_set)
  with sub all show ?thesis by (metis image_eqI subsetD)
qed

lemma customers_table_row_no_invoices:
  assumes "\<forall>i \<in> set (invoices db). invoices_customer_id i \<noteq> customers_id c"
    and "customer_matches pat c"
  shows "customers_table_row
           (filter (\<lambda>r. customer_matches pat (fst r)) (customers_left_join_invoices db)) c =
         \<lparr>ct_id = customers_id c, ct_name = customers_name c, ct_email = customers_email c,
          ct_image_url = customers_image_url c, total_invoices = BigintText 0,
          total_pending = BigintText 0, total_paid = BigintText 0\<rparr>"
proof -
  have "filter (\<lambda>r. fst r = c)
          (filter (\<lambda>r. customer_matches pat (fst r)) (customers_left_join_invoices db)) =
        filter (\<lambda>r. fst r = c) (customers_left_join_invoices db)"
    using assms(2) by (auto intro: filter_cong)
  also have "\<dots> = map (\<lambda>c'. (c', None)) (filter (\<lambda>c'. c' = c) (customers db))"
    by (rule left_join_no_invoices [OF assms(1)])
  finally show ?thesis
    by (simp add: customers_table_row_def Let_def o_def amount_if_status_def)
qed

lemma fetchFilteredCustomers_no_invoices:
  assumes "c \<in> set (customers db)"
    and "customer_matches (CHR ''%'' # query @ ''%'') c"
    and "\<forall>i \<in> set (invoices db). invoices_customer_id i \<noteq> customers_id c"
  shows "\<exists>rows. fetchFilteredCustomers (pg eng db) query = Inr rows \<and>
           \<lparr>ct_id = customers_id c, ct_name = customers_name c, ct_email = customers_email c,
            ct_image_url = customers_image_url c, total_invoices = BigintText 0,
            total_pending = ''$0.00'', total_paid = ''$0.00''\<rparr> \<in> set rows \<and>
           bigint_string (BigintText 0) = ''0''"
proof -
  let ?pat = "like_pattern query"
  let ?rows = "filter (\<lambda>r. customer_matches ?pat (fst r)) (customers_left_join_invoices db)"
  have pat: "customer_matches ?pat c"
    using assms(2) by (simp add: like_pattern_def)
  have "c \<in> set (order_by_name eng (remdups (map fst ?rows)))"
    using left_join_mem [OF assms(1)] pat by (force simp: order_by_name_def)
  then have "customers_table_row ?rows c \<in> set (filtered_customers eng db ?pat)"
    by (simp add: filtered_customers_def Let_def)
  then have "\<lparr>ct_id = customers_id c, ct_name = customers_name c, ct_email = customers_email c,
          ct_image_url = customers_image_url c, total_invoices = BigintText 0,
          total_pending = BigintText 0, total_paid = BigintText 0\<rparr>
      \<in> set (filtered_customers eng db ?pat)"
    by (simp only: customers_table_row_no_invoices [OF assms(3) pat])
  then have "\<lparr>ct_id = customers_id c, ct_name = customers_name c, ct_email = customers_email c,
            ct_image_url = customers_image_url c, total_invoices = BigintText 0,
            total_pending = ''$0.00'', total_paid = ''$0.00''\<rparr>
      \<in> set (map (\<lambda>customer.
                   \<lparr>ct_id = ct_id customer, ct_name = ct_name customer,
                    ct_email = ct_email customer, ct_image_url = ct_image_url customer,
                    total_invoices = total_invoices customer,
                    total_pending = formatCurrency (Number (total_pending customer)),
                    total_paid = formatCurrency (Number (total_paid customer))\<rparr>)
              (filtered_customers eng db ?pat))"
    unfolding set_map
    by (rule rev_image_eqI) (simp_all add: round_double_0 formatCurrency_zero)
  moreover have "bigint_string (BigintText 0) = ''0''"
    by (simp add: show_int_def show_nat.simps digit_char_def)
  ultimately show ?thesis
    by (simp add: fetchFilteredCustomers_def pg_def try_catch_def)
qed

lemma example_customers_delba:
  "filter (\<lambda>r. customer_matches (like_pattern ''DELBA'') (fst r))
     (customers_left_join_invoices example_db) = [(customers example_db ! 1, None)]"
  by (simp add: customers_left_join_invoices_def example_db_def customer_matches_def ilike_def
      like_pattern_def to_lower_def)

text \<open>
  Claim C8. On the example data the customer \<open>Delba\<close> matches the query \<open>DELBA\<close> and has no
  invoice. The customer is in the result of \<open>fetchFilteredCustomers\<close>, with
  \<open>total_pending = '$0.00'\<close> and \<open>total_paid = '$0.00'\<close>, but \<open>total_invoices\<close> is the string
  \<open>'0'\<close> of the driver, not the number 0: unlike \<open>fetchCardData\<close> and \<open>fetchInvoicesPages\<close>,
  which put their counts through \<open>Number\<close>, this function does not convert the count.
\<close>

theorem fetchFilteredCustomers_count_text:
  "fetchFilteredCustomers (pg example_engine example_db) ''DELBA'' =
     Inr [\<lparr>ct_id = ''c2'', ct_name = ''Delba'', ct_email = ''delba@oliveira.com'',
           ct_image_url = ''/delba.png'', total_invoices = BigintText 0,
           total_pending = ''$0.00'', total_paid = ''$0.00''\<rparr>] \<and>
   bigint_string (BigintText 0) = ''0''"
proof -
  have "filtered_customers example_engine example_db (like_pattern ''DELBA'') =
      [\<lparr>ct_id = ''c2'', ct_name = ''Delba'', ct_email = ''delba@oliveira.com'',
        ct_image_url = ''/delba.png'', total_invoices = BigintText 0,
        total_pending = BigintText 0, total_paid = BigintText 0\<rparr>]"
    unfolding filtered_customers_def Let_def example_customers_delba
    by (simp add: order_by_name_def customers_table_row_def example_db_def
        amount_if_status_def)
  moreover have "bigint_string (BigintText 0) = ''0''"
    by (simp add: show_int_def show_nat.simps digit_char_def)
  ultimately show ?thesis
    by (simp add: fetchFilteredCustomers_def pg_def try_catch_def round_double_0
        formatCurrency_zero)
qed

end
